theory Spec2Isabelle
  imports Main "HOL-Library.Word"
begin

section \<open>Data model of the wagering program\<close>

text \<open>
  The Rust fragments of the audit report (the repository's only Rust code) are embedded
  one by one. Machine integers keep their widths: kill counters are compared with
  \<open>u32::MAX\<close>, spawn counters are incremented by a \<open>u16\<close>, the stake is a \<open>u64\<close>.
  A \<open>usize\<close> index is a natural number; a \<open>Pubkey\<close> is a number whose value \<open>0\<close> is
  \<open>Pubkey::default()\<close>, the marker of an empty slot.
\<close>

type_synonym u8 = "8 word"
type_synonym u16 = "16 word"
type_synonym u32 = "32 word"
type_synonym u64 = "64 word"
type_synonym pubkey = nat

definition default_pubkey :: pubkey where
  "default_pubkey = 0"

definition u32_MAX :: u32 where
  "u32_MAX = 4294967295"

datatype wager_error =
    InvalidTeam
  | InvalidPlayerIndex
  | KillCountOverflow
  | PlayerHasNoSpawns
  | MaxSpawnsExceeded
  | InsufficientVaultBalance
  | ArithmeticError
  | GameNotComplete
  | InvalidGameState
  | InvalidTeamSelection
  | PlayerAlreadyJoined
  | TeamIsFull
  | InsufficientUserBalance
  | InsufficientFunds
  | PlayerNotFound
  | UnauthorizedGameServer

text \<open>
  A Rust \<open>Result\<close> with the program's error codes. \<open>Panic\<close> is the abort of an
  out-of-range index or of an unchecked arithmetic overflow (the report describes the
  unchecked decrement below zero as a program panic).
\<close>

datatype 'a result = Ok 'a | Err wager_error | Panic

datatype game_status = WaitingForPlayers | InProgress | Completed | Distributed

datatype game_mode =
    WinnerTakesAllOneVsOne
  | WinnerTakesAllTwoVsTwo
  | WinnerTakesAllThreeVsThree
  | WinnerTakesAllFiveVsFive
  | PayToSpawnOneVsOne
  | PayToSpawnTwoVsTwo
  | PayToSpawnThreeVsThree
  | PayToSpawnFiveVsFive

record team =
  players :: "pubkey list"
  player_kills :: "u32 list"
  player_spawns :: "u16 list"

record game_session =
  session_id :: string
  authority :: pubkey
  session_bet :: u64
  game_mode :: game_mode
  team_a :: team
  team_b :: team
  status :: game_status
  created_at :: int
  expires_at :: int
  spawns_per_purchase :: u16

text \<open>
  Modelled from the spec: the constant \<open>MAX_PLAYERS_PER_TEAM\<close> is used by \<open>add_kill\<close> but
  declared outside the report; the largest mode is 5v5, and the three arrays of a team
  have that many entries.
\<close>

definition MAX_PLAYERS_PER_TEAM :: nat where
  "MAX_PLAYERS_PER_TEAM = 5"

definition wf_team :: "team \<Rightarrow> bool" where
  "wf_team t \<longleftrightarrow>
     length (players t) = MAX_PLAYERS_PER_TEAM \<and>
     length (player_kills t) = MAX_PLAYERS_PER_TEAM \<and>
     length (player_spawns t) = MAX_PLAYERS_PER_TEAM"

definition wf_session :: "game_session \<Rightarrow> bool" where
  "wf_session s \<longleftrightarrow> wf_team (team_a s) \<and> wf_team (team_b s)"

text \<open>
  Modelled from the spec: \<open>GameMode::players_per_team\<close> is called by \<open>check_all_filled\<close>
  and by the settlement loop but defined outside the report; the mode fixes the team size.
\<close>

fun players_per_team :: "game_mode \<Rightarrow> nat" where
  "players_per_team WinnerTakesAllOneVsOne = 1"
| "players_per_team WinnerTakesAllTwoVsTwo = 2"
| "players_per_team WinnerTakesAllThreeVsThree = 3"
| "players_per_team WinnerTakesAllFiveVsFive = 5"
| "players_per_team PayToSpawnOneVsOne = 1"
| "players_per_team PayToSpawnTwoVsTwo = 2"
| "players_per_team PayToSpawnThreeVsThree = 3"
| "players_per_team PayToSpawnFiveVsFive = 5"

section \<open>Kill recording: \<open>GameSession::add_kill\<close> (Appendix A.1)\<close>

text \<open>
  The method takes \<open>&mut self\<close>: the model returns the result together with the session
  as it stands when the method returns, so a mutation made before a later \<open>require!\<close>
  fails is visible. The two arms of each \<open>match\<close> differ only in the team they touch;
  \<open>kill_arm\<close> and \<open>spawn_arm\<close> are the body of one arm, \<open>kill_match\<close> and
  \<open>spawn_match\<close> the two \<open>match\<close> blocks.
\<close>

definition kill_arm :: "team \<Rightarrow> nat \<Rightarrow> unit result \<times> team" where
  "kill_arm t i =
     (if \<not> i < length (player_kills t) then (Panic, t)
      else if \<not> player_kills t ! i < u32_MAX then (Err KillCountOverflow, t)
      else (Ok (), t\<lparr>player_kills := (player_kills t)[i := player_kills t ! i + 1]\<rparr>))"

definition spawn_arm :: "team \<Rightarrow> nat \<Rightarrow> unit result \<times> team" where
  "spawn_arm t i =
     (if \<not> i < length (player_spawns t) then (Panic, t)
      else if \<not> player_spawns t ! i > 0 then (Err PlayerHasNoSpawns, t)
      else (Ok (), t\<lparr>player_spawns := (player_spawns t)[i := player_spawns t ! i - 1]\<rparr>))"

definition kill_match :: "game_session \<Rightarrow> u8 \<Rightarrow> nat \<Rightarrow> unit result \<times> game_session" where
  "kill_match self killer_team killer_player_index =
     (if killer_team = 0 then
        (case kill_arm (team_a self) killer_player_index of
           (r, t) \<Rightarrow> (r, self\<lparr>team_a := t\<rparr>))
      else if killer_team = 1 then
        (case kill_arm (team_b self) killer_player_index of
           (r, t) \<Rightarrow> (r, self\<lparr>team_b := t\<rparr>))
      else (Err InvalidTeam, self))"

definition spawn_match :: "game_session \<Rightarrow> u8 \<Rightarrow> nat \<Rightarrow> unit result \<times> game_session" where
  "spawn_match self victim_team victim_player_index =
     (if victim_team = 0 then
        (case spawn_arm (team_a self) victim_player_index of
           (r, t) \<Rightarrow> (r, self\<lparr>team_a := t\<rparr>))
      else if victim_team = 1 then
        (case spawn_arm (team_b self) victim_player_index of
           (r, t) \<Rightarrow> (r, self\<lparr>team_b := t\<rparr>))
      else (Err InvalidTeam, self))"

definition add_kill ::
  "game_session \<Rightarrow> u8 \<Rightarrow> nat \<Rightarrow> u8 \<Rightarrow> nat \<Rightarrow> unit result \<times> game_session" where
  "add_kill self killer_team killer_player_index victim_team victim_player_index =
     (if \<not> killer_player_index < MAX_PLAYERS_PER_TEAM then (Err InvalidPlayerIndex, self)
      else if \<not> victim_player_index < MAX_PLAYERS_PER_TEAM then (Err InvalidPlayerIndex, self)
      else
        (case kill_match self killer_team killer_player_index of
           (Ok u, s1) \<Rightarrow> spawn_match s1 victim_team victim_player_index
         | (Err e, s1) \<Rightarrow> (Err e, s1)
         | (Panic, s1) \<Rightarrow> (Panic, s1)))"

text \<open>Reading one counter of a slot, for the statements below.\<close>

definition team_of :: "game_session \<Rightarrow> u8 \<Rightarrow> team" where
  "team_of s t = (if t = 0 then team_a s else team_b s)"

definition kills_of :: "game_session \<Rightarrow> u8 \<Rightarrow> nat \<Rightarrow> u32" where
  "kills_of s t i = player_kills (team_of s t) ! i"

definition spawns_of :: "game_session \<Rightarrow> u8 \<Rightarrow> nat \<Rightarrow> u16" where
  "spawns_of s t i = player_spawns (team_of s t) ! i"

section \<open>Spawn purchase: \<open>GameSession::add_spawns\<close> (the fixed method of finding 3.4)\<close>

text \<open>
  The increment is the session's \<open>spawns_per_purchase\<close>. The \<open>+=\<close> on a \<open>u16\<close> is
  unchecked: beyond \<open>u16::MAX\<close> it aborts. The method compares the counter with nothing.
\<close>

definition add_spawns_arm :: "team \<Rightarrow> nat \<Rightarrow> u16 \<Rightarrow> unit result \<times> team" where
  "add_spawns_arm t i spawn_count =
     (if \<not> i < length (player_spawns t) then (Panic, t)
      else if \<not> unat (player_spawns t ! i) + unat spawn_count < 2 ^ 16 then (Panic, t)
      else (Ok (), t\<lparr>player_spawns := (player_spawns t)[i := player_spawns t ! i + spawn_count]\<rparr>))"

definition add_spawns :: "game_session \<Rightarrow> u8 \<Rightarrow> nat \<Rightarrow> unit result \<times> game_session" where
  "add_spawns self team player_index =
     (let spawn_count = spawns_per_purchase self in
      if team = 0 then
        (case add_spawns_arm (team_a self) player_index spawn_count of
           (r, t) \<Rightarrow> (r, self\<lparr>team_a := t\<rparr>))
      else if team = 1 then
        (case add_spawns_arm (team_b self) player_index spawn_count of
           (r, t) \<Rightarrow> (r, self\<lparr>team_b := t\<rparr>))
      else (Err InvalidTeam, self))"

section \<open>The token ledger\<close>

text \<open>
  Modelled from the spec: the token program is outside the report. The spec's ledger
  adapter holds one balance per account, the vault's among them (\<open>balance_of\<close>); amounts
  are unsigned integers.
\<close>

record ledger =
  vault_amount :: nat
  token_amount :: "pubkey \<Rightarrow> nat"

text \<open>
  Modelled from the spec: the helper \<open>transfer_tokens\<close> of Appendix A.2 and the token
  transfer of the handlers are outside the report. The ledger adapter's
  \<open>transfer(from, to, amount)\<close> moves the amount from the vault to the player's account
  and is refused on insufficient funds.
\<close>

definition transfer_tokens :: "ledger \<Rightarrow> pubkey \<Rightarrow> u64 \<Rightarrow> unit result \<times> ledger" where
  "transfer_tokens l player_account amount =
     (if vault_amount l < unat amount then (Err InsufficientFunds, l)
      else (Ok (),
            l\<lparr>vault_amount := vault_amount l - unat amount,
              token_amount := (token_amount l)
                (player_account := token_amount l player_account + unat amount)\<rparr>))"

text \<open>
  Modelled from the spec: the debit of the stake in \<open>join_user\<close> is outside the report.
  It moves the amount from the player's account into the vault and fails with
  \<open>InsufficientUserBalance\<close> when the player cannot cover it.
\<close>

definition deposit_tokens :: "ledger \<Rightarrow> pubkey \<Rightarrow> u64 \<Rightarrow> unit result \<times> ledger" where
  "deposit_tokens l user amount =
     (if token_amount l user < unat amount then (Err InsufficientUserBalance, l)
      else (Ok (),
            l\<lparr>vault_amount := vault_amount l + unat amount,
              token_amount := (token_amount l) (user := token_amount l user - unat amount)\<rparr>))"

text \<open>
  Modelled from the spec: the helper \<open>rollback_transfers\<close> of Appendix A.2 is outside
  the report. When a transfer of the batch fails, none of the batch's effects are
  retained: each transfer that had succeeded is taken back.
\<close>

fun rollback_transfers :: "ledger \<Rightarrow> (pubkey \<times> u64) list \<Rightarrow> unit result \<times> ledger" where
  "rollback_transfers l [] = (Ok (), l)"
| "rollback_transfers l ((player_account, amount) # rest) =
     rollback_transfers
       (l\<lparr>vault_amount := vault_amount l + unat amount,
          token_amount := (token_amount l)
            (player_account := token_amount l player_account - unat amount)\<rparr>)
       rest"

text \<open>The accounts of an instruction: the session account and the token balances.\<close>

record accounts =
  session :: game_session
  tokens :: ledger

section \<open>Joining: \<open>check_all_filled\<close> and the \<open>join_user\<close> handler\<close>

text \<open>
  Modelled from the spec: \<open>Team::get_empty_slot\<close> is called by the report's code but
  defined outside it. The slot search returns the first empty slot among the mode's
  \<open>player_count\<close> slots, or \<open>TeamIsFull\<close>.
\<close>

definition get_empty_slot :: "team \<Rightarrow> nat \<Rightarrow> nat result" where
  "get_empty_slot t player_count =
     (let slots = take player_count (players t) in
      if default_pubkey \<in> set slots
      then Ok (length (takeWhile (\<lambda>p. p \<noteq> default_pubkey) slots))
      else Err TeamIsFull)"

text \<open>
  Modelled from the spec: \<open>get_player_empty_slot\<close> is outside the report; it searches the
  team with the given number, and the caller has checked that the number is 0 or 1.
\<close>

definition get_player_empty_slot :: "game_session \<Rightarrow> u8 \<Rightarrow> nat result" where
  "get_player_empty_slot self team =
     (if team = 0 then get_empty_slot (team_a self) (players_per_team (game_mode self))
      else if team = 1 then get_empty_slot (team_b self) (players_per_team (game_mode self))
      else Err InvalidTeam)"

definition is_err :: "'a result \<Rightarrow> bool" where
  "is_err r = (case r of Ok v \<Rightarrow> False | Err e \<Rightarrow> True | Panic \<Rightarrow> True)"

text \<open>\<open>check_all_filled\<close> as fixed in finding 2.2.\<close>

definition check_all_filled :: "game_session \<Rightarrow> bool result" where
  "check_all_filled self =
     (let player_count = players_per_team (game_mode self);
          team_a_full = is_err (get_empty_slot (team_a self) player_count);
          team_b_full = is_err (get_empty_slot (team_b self) player_count)
      in Ok (team_a_full \<and> team_b_full))"

text \<open>
  Modelled from the spec: between the slot search and the status update the handler
  debits the stake into the vault and claims the slot; that part of \<open>join_user\<close> is
  outside the report. Claiming writes the player into the empty slot found.
\<close>

definition claim_slot :: "game_session \<Rightarrow> u8 \<Rightarrow> nat \<Rightarrow> pubkey \<Rightarrow> game_session" where
  "claim_slot self team empty_index user =
     (if team = 0
      then self\<lparr>team_a := (team_a self)\<lparr>players := (players (team_a self))[empty_index := user]\<rparr>\<rparr>
      else self\<lparr>team_b := (team_b self)\<lparr>players := (players (team_b self))[empty_index := user]\<rparr>\<rparr>)"

text \<open>
  The status update of \<open>join_user\<close> as the report prints it (finding 1.3):
  \<^verbatim>\<open>if !game_session.check_all_filled()? { game_session.status = GameStatus::InProgress; }\<close>
\<close>

definition update_status_after_join :: "game_session \<Rightarrow> unit result \<times> game_session" where
  "update_status_after_join game_session =
     (case check_all_filled game_session of
        Ok filled \<Rightarrow>
          if \<not> filled then (Ok (), game_session\<lparr>status := InProgress\<rparr>)
          else (Ok (), game_session)
      | Err e \<Rightarrow> (Err e, game_session)
      | Panic \<Rightarrow> (Panic, game_session))"

text \<open>
  The handler body: the state check and the team check of the original code, the
  duplicate check added by finding 2.4, the slot search, the debit and the claim, the
  status update. The account constraints recommended by finding 1.3 are declared on the
  accounts structure, outside the handler, and call a method \<open>can_add_player\<close> that the
  report does not give; they are not part of this definition.
\<close>

definition join_user :: "accounts \<Rightarrow> pubkey \<Rightarrow> u8 \<Rightarrow> unit result \<times> accounts" where
  "join_user ctx user team =
     (let game_session = session ctx in
      if \<not> status game_session = WaitingForPlayers then (Err InvalidGameState, ctx)
      else if \<not> (team = 0 \<or> team = 1) then (Err InvalidTeamSelection, ctx)
      else if \<not> (user \<notin> set (players (team_a game_session)) \<and>
                   user \<notin> set (players (team_b game_session)))
        then (Err PlayerAlreadyJoined, ctx)
      else
        (case get_player_empty_slot game_session team of
           Err e \<Rightarrow> (Err e, ctx)
         | Panic \<Rightarrow> (Panic, ctx)
         | Ok empty_index \<Rightarrow>
             (case deposit_tokens (tokens ctx) user (session_bet game_session) of
                (Ok u, l1) \<Rightarrow>
                  (case update_status_after_join (claim_slot game_session team empty_index user) of
                     (r, s2) \<Rightarrow> (r, \<lparr>session = s2, tokens = l1\<rparr>))
              | (Err e, l1) \<Rightarrow> (Err e, ctx)
              | (Panic, l1) \<Rightarrow> (Panic, ctx))))"

text \<open>The identities that occupy a slot, team A first.\<close>

definition occupied :: "game_session \<Rightarrow> pubkey list" where
  "occupied s = filter (\<lambda>p. p \<noteq> default_pubkey) (players (team_a s) @ players (team_b s))"

definition unique_players :: "game_session \<Rightarrow> bool" where
  "unique_players s \<longleftrightarrow> distinct (occupied s)"

section \<open>Settlement\<close>

text \<open>
  The report holds two settlement codes. Finding 1.2 prints the two handlers of the
  program, \<open>distribute_all_winnings_handler\<close> and \<open>distribute_pay_spawn_earnings\<close>, and
  the fix it recommends for both: a balance check in front of each single transfer.
  Appendix A.2 prints a third function, \<open>distribute_winnings\<close>, which compares the total
  with the vault balance before any transfer, rolls back on a failed transfer and sets
  the status to \<open>Distributed\<close>. Each is embedded as it is printed.
\<close>

subsection \<open>\<open>distribute_winnings\<close> (Appendix A.2)\<close>

text \<open>
  The loop of Appendix A.2: each transfer that succeeds is pushed on
  \<open>successful_transfers\<close>; the first one that fails rolls those back and returns its error.
\<close>

fun transfer_all ::
  "ledger \<Rightarrow> (pubkey \<times> u64) list \<Rightarrow> (pubkey \<times> u64) list \<Rightarrow> unit result \<times> ledger" where
  "transfer_all l [] successful_transfers = (Ok (), l)"
| "transfer_all l ((player_account, amount) # rest) successful_transfers =
     (case transfer_tokens l player_account amount of
        (Ok u, l1) \<Rightarrow> transfer_all l1 rest (successful_transfers @ [(player_account, amount)])
      | (Err e, l1) \<Rightarrow>
          (case rollback_transfers l1 successful_transfers of
             (Ok u, l2) \<Rightarrow> (Err e, l2)
           | (Err e2, l2) \<Rightarrow> (Err e2, l2)
           | (Panic, l2) \<Rightarrow> (Panic, l2))
      | (Panic, l1) \<Rightarrow> (Panic, l1))"

text \<open>
  The helpers \<open>calculate_total_distribution\<close> and \<open>calculate_distributions\<close> are outside
  the report: they are parameters. The status compared with is the one the report writes
  \<open>GameStatus::Complete\<close>.
\<close>

definition distribute_winnings ::
  "(game_session \<Rightarrow> u64 result) \<Rightarrow> (game_session \<Rightarrow> (pubkey \<times> u64) list result) \<Rightarrow>
   accounts \<Rightarrow> unit result \<times> accounts" where
  "distribute_winnings calculate_total_distribution calculate_distributions ctx =
     (let game_session = session ctx in
      if \<not> status game_session = Completed then (Err GameNotComplete, ctx)
      else
        (case calculate_total_distribution game_session of
           Err e \<Rightarrow> (Err e, ctx)
         | Panic \<Rightarrow> (Panic, ctx)
         | Ok total_distribution \<Rightarrow>
             (let vault_balance = vault_amount (tokens ctx) in
              if \<not> vault_balance \<ge> unat total_distribution
              then (Err InsufficientVaultBalance, ctx)
              else
                (case calculate_distributions game_session of
                   Err e \<Rightarrow> (Err e, ctx)
                 | Panic \<Rightarrow> (Panic, ctx)
                 | Ok distributions \<Rightarrow>
                     (case transfer_all (tokens ctx) distributions [] of
                        (Ok u, l1) \<Rightarrow>
                          (Ok (), \<lparr>session = game_session\<lparr>status := Distributed\<rparr>, tokens = l1\<rparr>)
                      | (Err e, l1) \<Rightarrow> (Err e, ctx\<lparr>tokens := l1\<rparr>)
                      | (Panic, l1) \<Rightarrow> (Panic, ctx\<lparr>tokens := l1\<rparr>))))))"

text \<open>The sum of the payouts of a plan, for the statements about \<open>distribute_winnings\<close>.\<close>

definition sum_payouts :: "(pubkey \<times> u64) list \<Rightarrow> nat" where
  "sum_payouts distributions = sum_list (map (\<lambda>d. unat (snd d)) distributions)"

subsection \<open>\<open>distribute_all_winnings_handler\<close> with the fix of finding 1.2\<close>

text \<open>
  \<^verbatim>\<open>let winning_amount = game_session.session_bet * 2;\<close>
  The multiplication is unchecked.
\<close>

definition winning_amount :: "game_session \<Rightarrow> u64 result" where
  "winning_amount game_session =
     (if unat (session_bet game_session) * 2 < 2 ^ 64
      then Ok (session_bet game_session * 2) else Panic)"

text \<open>
  Modelled from the spec: the report elides the validation of \<open>winning_team\<close> and the
  lookup of \<open>winner_token_account\<close>. The payout is per slot of the winning team: the
  winner of slot \<open>i\<close> is that team's \<open>players[i]\<close>, team 0 being team A. The printed loop
  has one iteration for each of the \<open>players_per_team\<close> slots and skips none.
\<close>

definition winning_players :: "game_session \<Rightarrow> u8 \<Rightarrow> pubkey list" where
  "winning_players game_session winning_team =
     take (players_per_team (game_mode game_session))
       (players (team_of game_session winning_team))"

text \<open>
  The loop \<^verbatim>\<open>for i in 0..players_per_team\<close> with the fix of finding 1.2: the amount,
  the balance read, the \<open>require!\<close>, the transfer.
\<close>

fun pay_winners :: "game_session \<Rightarrow> ledger \<Rightarrow> pubkey list \<Rightarrow> unit result \<times> ledger" where
  "pay_winners game_session l [] = (Ok (), l)"
| "pay_winners game_session l (winner # rest) =
     (case winning_amount game_session of
        Err e \<Rightarrow> (Err e, l)
      | Panic \<Rightarrow> (Panic, l)
      | Ok amount \<Rightarrow>
          (let vault_balance = vault_amount l in
           if \<not> vault_balance \<ge> unat amount then (Err InsufficientVaultBalance, l)
           else
             (case transfer_tokens l winner amount of
                (Ok u, l1) \<Rightarrow> pay_winners game_session l1 rest
              | (Err e, l1) \<Rightarrow> (Err e, l1)
              | (Panic, l1) \<Rightarrow> (Panic, l1))))"

text \<open>
  The handler as printed: after the loop it returns \<^verbatim>\<open>Ok(())\<close>; it compares the status
  with nothing and assigns no status.
\<close>

definition distribute_all_winnings_handler :: "accounts \<Rightarrow> u8 \<Rightarrow> unit result \<times> accounts" where
  "distribute_all_winnings_handler ctx winning_team =
     (let game_session = session ctx in
      case pay_winners game_session (tokens ctx) (winning_players game_session winning_team) of
        (r, l1) \<Rightarrow> (r, ctx\<lparr>tokens := l1\<rparr>))"

subsection \<open>\<open>distribute_pay_spawn_earnings\<close> with the fixes of findings 1.2 and 2.3\<close>

text \<open>
  Modelled from the spec: \<open>get_all_players\<close> is outside the report. The payout is per
  occupied slot across both teams: the players are the occupants of the mode's slots,
  team A first.
\<close>

definition get_all_players :: "game_session \<Rightarrow> pubkey list" where
  "get_all_players self =
     filter (\<lambda>p. p \<noteq> default_pubkey)
       (take (players_per_team (game_mode self)) (players (team_a self)) @
        take (players_per_team (game_mode self)) (players (team_b self)))"

text \<open>
  Rust's \<open>Iterator::position\<close> on a slice of keys: the index of the first slot that
  holds the player.
\<close>

fun position :: "pubkey list \<Rightarrow> pubkey \<Rightarrow> nat option" where
  "position [] player = None"
| "position (p # ps) player =
     (if p = player then Some 0 else map_option Suc (position ps player))"

text \<open>
  Modelled from the spec: \<open>get_kills_and_spawns\<close> is outside the report. It is the
  \<open>kills + spawns\<close> of the slot the player occupies; the fixed code multiplies it with
  the \<open>u64\<close> stake by \<open>checked_mul\<close>, so it is a \<open>u64\<close>.
\<close>

definition kills_and_spawns_at :: "team \<Rightarrow> nat \<Rightarrow> u64 result" where
  "kills_and_spawns_at t i =
     (if i < length (player_kills t) \<and> i < length (player_spawns t)
      then Ok (ucast (player_kills t ! i) + ucast (player_spawns t ! i))
      else Panic)"

text \<open>
  Modelled from the spec: the player is looked up in team A, then in team B; a player
  found in neither is an error.
\<close>

definition get_kills_and_spawns :: "game_session \<Rightarrow> pubkey \<Rightarrow> u64 result" where
  "get_kills_and_spawns self player =
     (case position (players (team_a self)) player of
        Some i \<Rightarrow> kills_and_spawns_at (team_a self) i
      | None \<Rightarrow>
          (case position (players (team_b self)) player of
             Some i \<Rightarrow> kills_and_spawns_at (team_b self) i
           | None \<Rightarrow> Err PlayerNotFound))"

text \<open>Rust's \<open>u64::checked_mul\<close> and \<open>u64::checked_div\<close>.\<close>

definition checked_mul :: "u64 \<Rightarrow> u64 \<Rightarrow> u64 option" where
  "checked_mul a b = (if unat a * unat b < 2 ^ 64 then Some (a * b) else None)"

definition checked_div :: "u64 \<Rightarrow> u64 \<Rightarrow> u64 option" where
  "checked_div a b = (if b = 0 then None else Some (a div b))"

text \<open>
  The fixed computation of finding 2.3:
  \<^verbatim>\<open>kills_and_spawns.checked_mul(game_session.session_bet)
      .and_then(|x| x.checked_div(10)).ok_or(WagerError::ArithmeticError)?\<close>
\<close>

definition calculate_earnings :: "u64 \<Rightarrow> u64 \<Rightarrow> u64 result" where
  "calculate_earnings kills_and_spawns bet =
     (case Option.bind (checked_mul kills_and_spawns bet) (\<lambda>x. checked_div x 10) of
        Some earnings \<Rightarrow> Ok earnings
      | None \<Rightarrow> Err ArithmeticError)"

text \<open>
  The loop over the players, with the balance check of finding 1.2 in front of each
  transfer. The session is borrowed immutably: the handler writes no field of it.
\<close>

fun pay_players :: "game_session \<Rightarrow> ledger \<Rightarrow> pubkey list \<Rightarrow> unit result \<times> ledger" where
  "pay_players game_session l [] = (Ok (), l)"
| "pay_players game_session l (player # rest) =
     (case get_kills_and_spawns game_session player of
        Err e \<Rightarrow> (Err e, l)
      | Panic \<Rightarrow> (Panic, l)
      | Ok kills_and_spawns \<Rightarrow>
          if kills_and_spawns = 0 then pay_players game_session l rest
          else
            (case calculate_earnings kills_and_spawns (session_bet game_session) of
               Err e \<Rightarrow> (Err e, l)
             | Panic \<Rightarrow> (Panic, l)
             | Ok earnings \<Rightarrow>
                 if earnings > 0 then
                   (let vault_balance = vault_amount l in
                    if \<not> vault_balance \<ge> unat earnings then (Err InsufficientVaultBalance, l)
                    else
                      (case transfer_tokens l player earnings of
                         (Ok u, l1) \<Rightarrow> pay_players game_session l1 rest
                       | (Err e, l1) \<Rightarrow> (Err e, l1)
                       | (Panic, l1) \<Rightarrow> (Panic, l1)))
                 else pay_players game_session l rest))"

definition distribute_pay_spawn_earnings :: "accounts \<Rightarrow> unit result \<times> accounts" where
  "distribute_pay_spawn_earnings ctx =
     (let game_session = session ctx;
          all_players = get_all_players game_session
      in case pay_players game_session (tokens ctx) all_players of
           (r, l1) \<Rightarrow> (r, ctx\<lparr>tokens := l1\<rparr>))"

text \<open>What a slot with the given counters is owed: \<open>floor ((kills + spawns) * bet / 10)\<close>.\<close>

definition earnings_of :: "game_session \<Rightarrow> pubkey \<Rightarrow> nat" where
  "earnings_of s player =
     (case get_kills_and_spawns s player of
        Ok ks \<Rightarrow> (unat ks * unat (session_bet s)) div 10
      | Err e \<Rightarrow> 0
      | Panic \<Rightarrow> 0)"

text \<open>What a list of transfers credits to one account.\<close>

definition paid_to :: "(pubkey \<times> u64) list \<Rightarrow> pubkey \<Rightarrow> nat" where
  "paid_to distributions p =
     sum_list (map (\<lambda>d. unat (snd d)) (filter (\<lambda>d. fst d = p) distributions))"

section \<open>The RecordKill operation\<close>



section \<open>Concrete sessions\<close>

text \<open>
  One-versus-one sessions with the first slot of each team given, and a ledger with a
  given vault balance and the balances of players 1 and 2.
\<close>

definition slot_team :: "pubkey \<Rightarrow> u32 \<Rightarrow> u16 \<Rightarrow> team" where
  "slot_team p k sp =
     \<lparr>players = [p, 0, 0, 0, 0], player_kills = [k, 0, 0, 0, 0],
      player_spawns = [sp, 0, 0, 0, 0]\<rparr>"

definition duel :: "game_mode \<Rightarrow> u64 \<Rightarrow> game_status \<Rightarrow> team \<Rightarrow> team \<Rightarrow> game_session" where
  "duel m bet st a b =
     \<lparr>session_id = ''duel'', authority = 99, session_bet = bet, game_mode = m,
      team_a = a, team_b = b, status = st, created_at = 0, expires_at = 3600,
      spawns_per_purchase = 10\<rparr>"

definition purse :: "nat \<Rightarrow> nat \<Rightarrow> nat \<Rightarrow> ledger" where
  "purse v b1 b2 =
     \<lparr>vault_amount = v, token_amount = (\<lambda>p. if p = 1 then b1 else if p = 2 then b2 else 0)\<rparr>"

section \<open>Properties of kill recording\<close>


lemma wf_slot_team: "wf_team (slot_team p k sp)"
  by (simp add: wf_team_def slot_team_def MAX_PLAYERS_PER_TEAM_def)

lemma wf_duel: "wf_session (duel m bet st (slot_team p k sp) (slot_team p' k' sp'))"
  by (simp add: wf_session_def duel_def wf_slot_team)

lemma u32_MAX_unat: "(k < u32_MAX) = (unat k < 4294967295)"
  by (simp add: u32_MAX_def word_less_nat_alt)

lemma kill_match_full:
  assumes "wf_session s" "kt = 0 \<or> kt = 1" "ki < MAX_PLAYERS_PER_TEAM" "\<not> kills_of s kt ki < u32_MAX"
  shows "kill_match s kt ki = (Err KillCountOverflow, s)"
  using assms
  by (auto simp: kill_match_def kill_arm_def wf_session_def wf_team_def kills_of_def team_of_def)

lemma kill_match_ok:
  assumes "wf_session s" "kt = 0 \<or> kt = 1" "ki < MAX_PLAYERS_PER_TEAM" "kills_of s kt ki < u32_MAX"
  shows "\<exists>s1. kill_match s kt ki = (Ok (), s1) \<and> wf_session s1 \<and>
           kills_of s1 kt ki = kills_of s kt ki + 1 \<and>
           (\<forall>t i. spawns_of s1 t i = spawns_of s t i)"
  using assms
  by (auto simp: kill_match_def kill_arm_def wf_session_def wf_team_def kills_of_def
      spawns_of_def team_of_def)

lemma kill_match_spawns:
  "spawns_of (snd (kill_match s kt ki)) t i = spawns_of s t i"
  by (auto simp: kill_match_def kill_arm_def spawns_of_def team_of_def split: prod.splits)

lemma kill_match_wf:
  "wf_session s \<Longrightarrow> wf_session (snd (kill_match s kt ki))"
  by (auto simp: kill_match_def kill_arm_def wf_session_def wf_team_def split: prod.splits)

lemma spawn_match_none:
  assumes "wf_session s" "vt = 0 \<or> vt = 1" "vi < MAX_PLAYERS_PER_TEAM" "spawns_of s vt vi = 0"
  shows "spawn_match s vt vi = (Err PlayerHasNoSpawns, s)"
  using assms
  by (auto simp: spawn_match_def spawn_arm_def wf_session_def wf_team_def spawns_of_def team_of_def)

lemma spawn_match_some:
  assumes "wf_session s" "vt = 0 \<or> vt = 1" "vi < MAX_PLAYERS_PER_TEAM" "0 < spawns_of s vt vi"
  shows "fst (spawn_match s vt vi) = Ok () \<and>
         spawns_of (snd (spawn_match s vt vi)) vt vi = spawns_of s vt vi - 1"
  using assms
  by (auto simp: spawn_match_def spawn_arm_def wf_session_def wf_team_def spawns_of_def team_of_def)

lemma spawn_match_kills:
  "kills_of (snd (spawn_match s vt vi)) t i = kills_of s t i"
  by (auto simp: spawn_match_def spawn_arm_def kills_of_def team_of_def split: prod.splits)

lemma spawn_match_le:
  assumes "wf_session s" "vt = 0 \<or> vt = 1" "vi < MAX_PLAYERS_PER_TEAM"
  shows "unat (spawns_of (snd (spawn_match s vt vi)) vt vi) \<le> unat (spawns_of s vt vi)"
proof (cases "spawns_of s vt vi = 0")
  case True
  with assms show ?thesis by (simp add: spawn_match_none)
next
  case False
  then have pos: "0 < spawns_of s vt vi" by (simp add: word_greater_zero_iff)
  have "unat (spawns_of s vt vi - 1) = unat (spawns_of s vt vi) - 1"
    using False by (rule unat_minus_one)
  with spawn_match_some [OF assms pos] show ?thesis by simp
qed

lemma add_kill_unfold:
  assumes "ki < MAX_PLAYERS_PER_TEAM" "vi < MAX_PLAYERS_PER_TEAM"
  shows "add_kill s kt ki vt vi =
     (case kill_match s kt ki of
           (Ok u, s1) \<Rightarrow> spawn_match s1 vt vi
         | (Err e, s1) \<Rightarrow> (Err e, s1)
         | (Panic, s1) \<Rightarrow> (Panic, s1))"
  using assms by (simp add: add_kill_def)


text \<open>
  Claim C2. In a well-formed session, for a victim slot of team 0 or 1: when the
  victim's spawn counter is zero, \<open>add_kill\<close> does not succeed and leaves that counter
  at zero, and when the killer's side of the call is valid (team 0 or 1, index in range,
  kill counter below \<open>u32::MAX\<close>) the error is \<open>PlayerHasNoSpawns\<close>; when the counter
  is greater than zero and the killer's side is valid, the call succeeds and the counter
  is one less. Whatever the call, the counter never ends above its old value, so it is
  never taken below zero.
\<close>

theorem add_kill_spawn_guard:
  assumes wf: "wf_session s" and vt: "vt = 0 \<or> vt = 1" and vi: "vi < MAX_PLAYERS_PER_TEAM"
  shows "(spawns_of s vt vi = 0 \<longrightarrow>
            fst (add_kill s kt ki vt vi) \<noteq> Ok () \<and>
            spawns_of (snd (add_kill s kt ki vt vi)) vt vi = 0 \<and>
            ((kt = 0 \<or> kt = 1) \<and> ki < MAX_PLAYERS_PER_TEAM \<and> kills_of s kt ki < u32_MAX \<longrightarrow>
               fst (add_kill s kt ki vt vi) = Err PlayerHasNoSpawns)) \<and>
         (0 < spawns_of s vt vi \<and>
          (kt = 0 \<or> kt = 1) \<and> ki < MAX_PLAYERS_PER_TEAM \<and> kills_of s kt ki < u32_MAX \<longrightarrow>
            fst (add_kill s kt ki vt vi) = Ok () \<and>
            unat (spawns_of (snd (add_kill s kt ki vt vi)) vt vi) = unat (spawns_of s vt vi) - 1) \<and>
         unat (spawns_of (snd (add_kill s kt ki vt vi)) vt vi) \<le> unat (spawns_of s vt vi)"
proof -
  let ?r = "add_kill s kt ki vt vi"
  let ?s1 = "snd (kill_match s kt ki)"
  have wf1: "wf_session ?s1" using wf by (rule kill_match_wf)
  have sp1: "spawns_of ?s1 vt vi = spawns_of s vt vi" by (rule kill_match_spawns)
  consider (idx) "\<not> ki < MAX_PLAYERS_PER_TEAM"
    | (fail) "ki < MAX_PLAYERS_PER_TEAM" "fst (kill_match s kt ki) \<noteq> Ok ()"
    | (pass) "ki < MAX_PLAYERS_PER_TEAM" "fst (kill_match s kt ki) = Ok ()"
    by blast
  then have shape:
    "(fst ?r \<noteq> Ok () \<and> spawns_of (snd ?r) vt vi = spawns_of s vt vi) \<or>
     (ki < MAX_PLAYERS_PER_TEAM \<and> fst (kill_match s kt ki) = Ok () \<and> ?r = spawn_match ?s1 vt vi)"
  proof cases
    case idx
    then show ?thesis by (simp add: add_kill_def)
  next
    case fail
    then show ?thesis
      using vi sp1 by (auto simp: add_kill_unfold split: prod.splits result.splits)
  next
    case pass
    then show ?thesis
      using vi by (auto simp: add_kill_unfold split: prod.splits result.splits)
  qed
  have le: "unat (spawns_of (snd ?r) vt vi) \<le> unat (spawns_of s vt vi)"
    using shape spawn_match_le [OF wf1 vt vi] sp1 by auto
  have zero: "fst ?r \<noteq> Ok () \<and> spawns_of (snd ?r) vt vi = 0" if z: "spawns_of s vt vi = 0"
    using shape spawn_match_none [OF wf1 vt vi] sp1 z by auto
  have killer: "?r = spawn_match ?s1 vt vi"
    if "kt = 0 \<or> kt = 1" "ki < MAX_PLAYERS_PER_TEAM" "kills_of s kt ki < u32_MAX"
    using kill_match_ok [OF wf that] vi that(2) by (auto simp: add_kill_unfold)
  have none: "fst ?r = Err PlayerHasNoSpawns"
    if "spawns_of s vt vi = 0" "kt = 0 \<or> kt = 1" "ki < MAX_PLAYERS_PER_TEAM" "kills_of s kt ki < u32_MAX"
    using killer [OF that(2-4)] spawn_match_none [OF wf1 vt vi] sp1 that(1) by simp
  have some: "fst ?r = Ok () \<and> unat (spawns_of (snd ?r) vt vi) = unat (spawns_of s vt vi) - 1"
    if "0 < spawns_of s vt vi" "kt = 0 \<or> kt = 1" "ki < MAX_PLAYERS_PER_TEAM" "kills_of s kt ki < u32_MAX"
  proof -
    have pos: "0 < spawns_of ?s1 vt vi" using that(1) sp1 by simp
    have nz: "spawns_of s vt vi \<noteq> 0" using that(1) by (simp add: word_greater_zero_iff)
    show ?thesis
      using killer [OF that(2-4)] spawn_match_some [OF wf1 vt vi pos] sp1 unat_minus_one [OF nz]
      by simp
  qed
  show ?thesis using le zero none some by blast
qed


lemma duel_reads:
  "spawns_of (duel m bet st (slot_team p k sp) (slot_team p' k' sp')) 0 0 = sp"
  "spawns_of (duel m bet st (slot_team p k sp) (slot_team p' k' sp')) 1 0 = sp'"
  "kills_of (duel m bet st (slot_team p k sp) (slot_team p' k' sp')) 0 0 = k"
  "kills_of (duel m bet st (slot_team p k sp) (slot_team p' k' sp')) 1 0 = k'"
  by (simp_all add: spawns_of_def kills_of_def team_of_def duel_def slot_team_def)

lemma index_0_valid: "0 < MAX_PLAYERS_PER_TEAM"
  by (simp add: MAX_PLAYERS_PER_TEAM_def)

theorem add_kill_spawn_guard_witness:
  "spawns_of (duel PayToSpawnOneVsOne 1000 InProgress (slot_team 1 10 10) (slot_team 2 0 0)) 1 0 = 0 \<and>
   fst (add_kill (duel PayToSpawnOneVsOne 1000 InProgress (slot_team 1 10 10) (slot_team 2 0 0)) 0 0 1 0)
     = Err PlayerHasNoSpawns \<and>
   spawns_of (snd (add_kill (duel PayToSpawnOneVsOne 1000 InProgress (slot_team 1 10 10) (slot_team 2 0 0))
     0 0 1 0)) 1 0 = 0 \<and>
   0 < spawns_of (duel PayToSpawnOneVsOne 1000 InProgress (slot_team 1 4 7) (slot_team 2 3 6)) 1 0 \<and>
   fst (add_kill (duel PayToSpawnOneVsOne 1000 InProgress (slot_team 1 4 7) (slot_team 2 3 6)) 0 0 1 0)
     = Ok () \<and>
   unat (spawns_of (snd (add_kill (duel PayToSpawnOneVsOne 1000 InProgress (slot_team 1 4 7) (slot_team 2 3 6))
     0 0 1 0)) 1 0) = 5"
proof -
  have team: "(1::u8) = 0 \<or> (1::u8) = 1" by simp
  have a: "kills_of (duel PayToSpawnOneVsOne 1000 InProgress (slot_team 1 10 10) (slot_team 2 0 0)) 0 0
             < u32_MAX"
    by (simp add: duel_reads u32_MAX_def)
  have b: "kills_of (duel PayToSpawnOneVsOne 1000 InProgress (slot_team 1 4 7) (slot_team 2 3 6)) 0 0
             < u32_MAX"
    by (simp add: duel_reads u32_MAX_def)
  show ?thesis
    using add_kill_spawn_guard [OF wf_duel team index_0_valid,
        of PayToSpawnOneVsOne 1000 InProgress 1 10 10 2 0 0 0 0]
      add_kill_spawn_guard [OF wf_duel team index_0_valid,
        of PayToSpawnOneVsOne 1000 InProgress 1 4 7 2 3 6 0 0]
      a b index_0_valid
    by (simp add: duel_reads)
qed

text \<open>
  Claim C10. In a well-formed session, for a killer in team 0 or 1 and indices in range:
  \<open>add_kill\<close> fails with \<open>KillCountOverflow\<close> exactly when the killer's kill counter is
  not below \<open>u32::MAX = 4294967295\<close>; the counter is incremented exactly when it is below
  that value; and for a counter of at most 65535 the guard does not fire.
\<close>

theorem add_kill_overflow_guard:
  assumes wf: "wf_session s" and kt: "kt = 0 \<or> kt = 1"
    and ki: "ki < MAX_PLAYERS_PER_TEAM" and vi: "vi < MAX_PLAYERS_PER_TEAM"
  shows "(fst (add_kill s kt ki vt vi) = Err KillCountOverflow \<longleftrightarrow>
            \<not> unat (kills_of s kt ki) < 4294967295) \<and>
         (unat (kills_of (snd (add_kill s kt ki vt vi)) kt ki) = unat (kills_of s kt ki) + 1 \<longleftrightarrow>
            unat (kills_of s kt ki) < 4294967295) \<and>
         (unat (kills_of s kt ki) \<le> 65535 \<longrightarrow>
            fst (add_kill s kt ki vt vi) \<noteq> Err KillCountOverflow)"
proof (cases "kills_of s kt ki < u32_MAX")
  case False
  then have "add_kill s kt ki vt vi = (Err KillCountOverflow, s)"
    using kill_match_full [OF wf kt ki] ki vi by (simp add: add_kill_unfold)
  with False show ?thesis by (simp add: u32_MAX_unat)
next
  case True
  obtain s1 where s1: "kill_match s kt ki = (Ok (), s1)" "wf_session s1"
    "kills_of s1 kt ki = kills_of s kt ki + 1"
    using kill_match_ok [OF wf kt ki True] by blast
  have r: "add_kill s kt ki vt vi = spawn_match s1 vt vi"
    using s1(1) ki vi by (simp add: add_kill_unfold)
  have ne: "fst (spawn_match s1 vt vi) \<noteq> Err KillCountOverflow"
    by (auto simp: spawn_match_def spawn_arm_def split: prod.splits)
  have k: "kills_of (snd (spawn_match s1 vt vi)) kt ki = kills_of s kt ki + 1"
    using s1(3) by (simp add: spawn_match_kills)
  have lt: "unat (kills_of s kt ki) < 4294967295" using True by (simp add: u32_MAX_unat)
  then have "unat (kills_of s kt ki + 1) = unat (kills_of s kt ki) + 1"
    by (simp add: unat_add_lem [THEN iffD1])
  with r ne k lt show ?thesis by simp
qed

theorem add_kill_overflow_guard_witness:
  "unat (kills_of (duel PayToSpawnOneVsOne 1000 InProgress (slot_team 1 65535 10) (slot_team 2 0 3)) 0 0)
     \<le> 65535 \<and>
   fst (add_kill (duel PayToSpawnOneVsOne 1000 InProgress (slot_team 1 65535 10) (slot_team 2 0 3)) 0 0 1 0)
     \<noteq> Err KillCountOverflow \<and>
   unat (kills_of (snd (add_kill
     (duel PayToSpawnOneVsOne 1000 InProgress (slot_team 1 65535 10) (slot_team 2 0 3)) 0 0 1 0)) 0 0)
     = 65536 \<and>
   fst (add_kill (duel PayToSpawnOneVsOne 1000 InProgress (slot_team 1 4294967295 10) (slot_team 2 0 3))
     0 0 1 0) = Err KillCountOverflow"
proof -
  have team: "(0::u8) = 0 \<or> (0::u8) = 1" by simp
  show ?thesis
    using add_kill_overflow_guard [OF wf_duel team index_0_valid index_0_valid,
        of PayToSpawnOneVsOne 1000 InProgress 1 65535 10 2 0 3 1]
      add_kill_overflow_guard [OF wf_duel team index_0_valid index_0_valid,
        of PayToSpawnOneVsOne 1000 InProgress 1 4294967295 10 2 0 3 1]
    by (simp add: duel_reads)
qed



section \<open>Properties of spawn purchase\<close>


lemma add_spawns_never_capped: "fst (add_spawns s t i) \<noteq> Err MaxSpawnsExceeded"
  by (auto simp: add_spawns_def add_spawns_arm_def Let_def split: prod.splits)

lemma add_spawns_increment:
  assumes "wf_session s" "t = 0 \<or> t = 1" "i < MAX_PLAYERS_PER_TEAM"
    "unat (spawns_of s t i) + unat (spawns_per_purchase s) < 2 ^ 16"
  shows "fst (add_spawns s t i) = Ok () \<and>
         unat (spawns_of (snd (add_spawns s t i)) t i) =
           unat (spawns_of s t i) + unat (spawns_per_purchase s)"
  using assms
  by (auto simp: add_spawns_def add_spawns_arm_def Let_def wf_session_def wf_team_def
      spawns_of_def team_of_def unat_add_lem [THEN iffD1])

text \<open>
  Claim C9, evaluated at a purchase that crosses the cap of 100 spawns the test suite
  calls \<open>MAX_SPAWNS_PER_PLAYER\<close>: the player of team 0, slot 0 holds 95 spawns and the
  configured increment is 10. \<open>add_spawns\<close> succeeds and leaves the counter at 105; by
  \<open>add_spawns_never_capped\<close> it returns \<open>MaxSpawnsExceeded\<close> on no input at all.
\<close>

theorem add_spawns_exceeds_cap:
  "add_spawns (duel PayToSpawnOneVsOne 1000 InProgress (slot_team 1 0 95) (slot_team 2 0 10)) 0 0 =
     (Ok (), duel PayToSpawnOneVsOne 1000 InProgress (slot_team 1 0 105) (slot_team 2 0 10)) \<and>
   spawns_of (snd (add_spawns
     (duel PayToSpawnOneVsOne 1000 InProgress (slot_team 1 0 95) (slot_team 2 0 10)) 0 0)) 0 0 = 105 \<and>
   spawns_per_purchase (duel PayToSpawnOneVsOne 1000 InProgress (slot_team 1 0 95) (slot_team 2 0 10)) = 10"
  by (simp add: add_spawns_def add_spawns_arm_def duel_def slot_team_def spawns_of_def team_of_def)

section \<open>Properties of joining\<close>

lemma distinct_filter_update:
  "distinct (filter P xs) \<Longrightarrow> u \<notin> set xs \<Longrightarrow> distinct (filter P (xs[i := u]))"
proof (induction xs arbitrary: i)
  case Nil
  then show ?case by simp
next
  case (Cons x xs)
  show ?case
  proof (cases i)
    case 0
    with Cons.prems show ?thesis by (auto split: if_splits)
  next
    case (Suc j)
    have "set (xs[j := u]) \<subseteq> insert u (set xs)" by (rule set_update_subset_insert)
    with Cons Suc show ?thesis by auto
  qed
qed

lemma update_status_occupied:
  "occupied (snd (update_status_after_join s)) = occupied s"
  by (auto simp: update_status_after_join_def occupied_def split: result.splits)

lemma claim_slot_unique:
  assumes "unique_players s" "user \<notin> set (players (team_a s))" "user \<notin> set (players (team_b s))"
  shows "unique_players (claim_slot s team i user)"
proof -
  let ?P = "\<lambda>p. p \<noteq> default_pubkey"
  have d: "distinct (filter ?P (players (team_a s) @ players (team_b s)))"
    using assms(1) by (simp add: unique_players_def occupied_def)
  have u: "user \<notin> set (players (team_a s) @ players (team_b s))" using assms(2,3) by simp
  have a: "distinct (filter ?P ((players (team_a s) @ players (team_b s))[j := user]))" for j
    using d u by (rule distinct_filter_update)
  show ?thesis
  proof (cases "team = 0")
    case True
    show ?thesis
    proof (cases "i < length (players (team_a s))")
      case True
      with a [of i] \<open>team = 0\<close> show ?thesis
        by (simp add: unique_players_def occupied_def claim_slot_def list_update_append)
    next
      case False
      with d \<open>team = 0\<close> show ?thesis
        by (simp add: unique_players_def occupied_def claim_slot_def list_update_beyond)
    qed
  next
    case False
    with a [of "length (players (team_a s)) + i"] show ?thesis
      by (simp add: unique_players_def occupied_def claim_slot_def list_update_append)
  qed
qed

lemma join_user_shape:
  "snd (join_user ctx user team) = ctx \<or>
   (user \<notin> set (players (team_a (session ctx))) \<and> user \<notin> set (players (team_b (session ctx))) \<and>
    (\<exists>i l1. snd (join_user ctx user team) =
       \<lparr>session = snd (update_status_after_join (claim_slot (session ctx) team i user)),
        tokens = l1\<rparr>))"
  by (auto simp: join_user_def Let_def case_prod_unfold split: result.splits)

lemma join_user_preserves_unique:
  assumes "unique_players (session ctx)"
  shows "unique_players (session (snd (join_user ctx user team)))"
  using join_user_shape [of ctx user team]
proof (elim disjE conjE exE)
  assume "snd (join_user ctx user team) = ctx"
  with assms show ?thesis by simp
next
  fix i l1
  assume fresh: "user \<notin> set (players (team_a (session ctx)))"
      "user \<notin> set (players (team_b (session ctx)))"
    and r: "snd (join_user ctx user team) =
       \<lparr>session = snd (update_status_after_join (claim_slot (session ctx) team i user)),
        tokens = l1\<rparr>"
  have "unique_players (claim_slot (session ctx) team i user)"
    using assms fresh by (rule claim_slot_unique)
  then show ?thesis
    by (simp add: r unique_players_def update_status_occupied)
qed

lemma join_user_duplicate:
  assumes "status (session ctx) = WaitingForPlayers" "team = 0 \<or> team = 1"
    "user \<in> set (players (team_a (session ctx))) \<or> user \<in> set (players (team_b (session ctx)))"
  shows "join_user ctx user team = (Err PlayerAlreadyJoined, ctx)"
  using assms by (auto simp: join_user_def Let_def)

lemma add_kill_players:
  "players (team_a (snd (add_kill s kt ki vt vi))) = players (team_a s) \<and>
   players (team_b (snd (add_kill s kt ki vt vi))) = players (team_b s)"
  by (auto simp: add_kill_def kill_match_def kill_arm_def spawn_match_def spawn_arm_def
      split: prod.splits result.splits)

lemma add_spawns_players:
  "players (team_a (snd (add_spawns s t i))) = players (team_a s) \<and>
   players (team_b (snd (add_spawns s t i))) = players (team_b s)"
  by (auto simp: add_spawns_def add_spawns_arm_def Let_def split: prod.splits)


lemma join_user_present_fails:
  assumes "user \<in> set (players (team_a (session ctx))) \<or> user \<in> set (players (team_b (session ctx)))"
  shows "fst (join_user ctx user team) \<noteq> Ok () \<and> snd (join_user ctx user team) = ctx"
  using assms by (auto simp: join_user_def Let_def)

text \<open>
  Claim C5, evaluated on the session of the duplicate-player tests: a fresh
  three-versus-three session, player 1 joins team 0, then asks to join team 1, and team 0
  again. The first join leaves five slots empty and sets the status to \<open>InProgress\<close>
  (the negated condition of the status update). Both later calls stop at the first check
  of the handler and fail with \<open>InvalidGameState\<close>, not with \<open>PlayerAlreadyJoined\<close>; they
  change nothing. The check of both teams is right where it is reached
  (\<open>join_user_duplicate\<close>), no call by a present player succeeds or changes anything
  (\<open>join_user_present_fails\<close>), and the occupied slots stay pairwise distinct
  (\<open>join_user_preserves_unique\<close>).
\<close>

theorem duplicate_join_invalid_state:
  "join_user \<lparr>session = duel WinnerTakesAllThreeVsThree 1000 WaitingForPlayers
        (slot_team 0 0 0) (slot_team 0 0 0), tokens = purse 0 5000 5000\<rparr> 1 0 =
     (Ok (), \<lparr>session = duel WinnerTakesAllThreeVsThree 1000 InProgress
        (slot_team 1 0 0) (slot_team 0 0 0), tokens = purse 1000 4000 5000\<rparr>) \<and>
   join_user \<lparr>session = duel WinnerTakesAllThreeVsThree 1000 InProgress
        (slot_team 1 0 0) (slot_team 0 0 0), tokens = purse 1000 4000 5000\<rparr> 1 1 =
     (Err InvalidGameState, \<lparr>session = duel WinnerTakesAllThreeVsThree 1000 InProgress
        (slot_team 1 0 0) (slot_team 0 0 0), tokens = purse 1000 4000 5000\<rparr>) \<and>
   join_user \<lparr>session = duel WinnerTakesAllThreeVsThree 1000 InProgress
        (slot_team 1 0 0) (slot_team 0 0 0), tokens = purse 1000 4000 5000\<rparr> 1 0 =
     (Err InvalidGameState, \<lparr>session = duel WinnerTakesAllThreeVsThree 1000 InProgress
        (slot_team 1 0 0) (slot_team 0 0 0), tokens = purse 1000 4000 5000\<rparr>)"
  by (simp add: join_user_def duel_def slot_team_def get_player_empty_slot_def get_empty_slot_def
      default_pubkey_def deposit_tokens_def purse_def update_status_after_join_def
      check_all_filled_def claim_slot_def is_err_def fun_eq_iff)

lemma join_user_status:
  assumes "join_user ctx user team = (Ok (), ctx')"
  shows "status (session ctx') =
           (if check_all_filled (session ctx') = Ok True then WaitingForPlayers else InProgress)"
  using assms
  by (auto simp: join_user_def Let_def case_prod_unfold update_status_after_join_def
      check_all_filled_def claim_slot_def split: result.splits if_splits)

text \<open>
  Claim C6, evaluated on a one-versus-one session. The first join succeeds, leaves the
  slot of team B empty, and sets the status to \<open>InProgress\<close>. The join that fills the
  last empty slot succeeds and leaves the status at \<open>WaitingForPlayers\<close>. The printed
  condition \<open>!check_all_filled()\<close> is the negation of the one the claim and the tests
  describe; \<open>join_user_status\<close> states it for every successful join.
\<close>

theorem join_user_status_inverted:
  "fst (join_user \<lparr>session = duel WinnerTakesAllOneVsOne 1000 WaitingForPlayers
        (slot_team 0 0 0) (slot_team 0 0 0), tokens = purse 0 5000 5000\<rparr> 1 0) = Ok () \<and>
   session (snd (join_user \<lparr>session = duel WinnerTakesAllOneVsOne 1000 WaitingForPlayers
        (slot_team 0 0 0) (slot_team 0 0 0), tokens = purse 0 5000 5000\<rparr> 1 0)) =
     duel WinnerTakesAllOneVsOne 1000 InProgress (slot_team 1 0 0) (slot_team 0 0 0) \<and>
   check_all_filled (duel WinnerTakesAllOneVsOne 1000 InProgress (slot_team 1 0 0) (slot_team 0 0 0))
     = Ok False \<and>
   fst (join_user \<lparr>session = duel WinnerTakesAllOneVsOne 1000 WaitingForPlayers
        (slot_team 1 0 0) (slot_team 0 0 0), tokens = purse 1000 4000 5000\<rparr> 2 1) = Ok () \<and>
   session (snd (join_user \<lparr>session = duel WinnerTakesAllOneVsOne 1000 WaitingForPlayers
        (slot_team 1 0 0) (slot_team 0 0 0), tokens = purse 1000 4000 5000\<rparr> 2 1)) =
     duel WinnerTakesAllOneVsOne 1000 WaitingForPlayers (slot_team 1 0 0) (slot_team 2 0 0) \<and>
   check_all_filled (duel WinnerTakesAllOneVsOne 1000 WaitingForPlayers (slot_team 1 0 0) (slot_team 2 0 0))
     = Ok True"
  by (simp add: join_user_def duel_def slot_team_def get_player_empty_slot_def get_empty_slot_def
      default_pubkey_def deposit_tokens_def purse_def update_status_after_join_def
      check_all_filled_def claim_slot_def is_err_def)

section \<open>Properties of settlement\<close>


lemma sum_payouts_simps [simp]:
  "sum_payouts [] = 0"
  "sum_payouts ((a, amt) # ds) = unat amt + sum_payouts ds"
  "sum_payouts (xs @ ys) = sum_payouts xs + sum_payouts ys"
  by (simp_all add: sum_payouts_def)

lemma paid_to_simps [simp]:
  "paid_to [] p = 0"
  "paid_to ((a, amt) # ds) p = (if a = p then unat amt else 0) + paid_to ds p"
  "paid_to (xs @ ys) p = paid_to xs p + paid_to ys p"
  by (simp_all add: paid_to_def)

lemma rollback_closed:
  "rollback_transfers l acc =
     (Ok (), \<lparr>vault_amount = vault_amount l + sum_payouts acc,
              token_amount = (\<lambda>p. token_amount l p - paid_to acc p)\<rparr>)"
proof (induction acc arbitrary: l)
  case Nil
  show ?case by simp
next
  case (Cons d acc)
  obtain a amt where d: "d = (a, amt)" by (cases d)
  show ?case by (simp add: d Cons.IH fun_eq_iff)
qed

lemma transfer_all_ok:
  "sum_payouts ds \<le> vault_amount l \<Longrightarrow>
   transfer_all l ds acc =
     (Ok (), \<lparr>vault_amount = vault_amount l - sum_payouts ds,
              token_amount = (\<lambda>p. token_amount l p + paid_to ds p)\<rparr>)"
proof (induction ds arbitrary: l acc)
  case Nil
  show ?case by simp
next
  case (Cons d ds)
  obtain a amt where d: "d = (a, amt)" by (cases d)
  let ?l1 = "l\<lparr>vault_amount := vault_amount l - unat amt,
              token_amount := (token_amount l)(a := token_amount l a + unat amt)\<rparr>"
  have t: "transfer_tokens l a amt = (Ok (), ?l1)"
    using Cons.prems by (simp add: d transfer_tokens_def)
  have "sum_payouts ds \<le> vault_amount ?l1" using Cons.prems by (simp add: d)
  from Cons.IH [OF this] show ?case by (simp add: d t fun_eq_iff)
qed

lemma transfer_all_fail:
  "\<not> sum_payouts ds \<le> vault_amount l \<Longrightarrow>
   transfer_all l ds acc =
     (Err InsufficientFunds,
      \<lparr>vault_amount = vault_amount l + sum_payouts acc,
       token_amount = (\<lambda>p. token_amount l p - paid_to acc p)\<rparr>)"
proof (induction ds arbitrary: l acc)
  case Nil
  then show ?case by simp
next
  case (Cons d ds)
  obtain a amt where d: "d = (a, amt)" by (cases d)
  show ?case
  proof (cases "vault_amount l < unat amt")
    case True
    then show ?thesis by (simp add: d transfer_tokens_def rollback_closed)
  next
    case False
    let ?l1 = "l\<lparr>vault_amount := vault_amount l - unat amt,
              token_amount := (token_amount l)(a := token_amount l a + unat amt)\<rparr>"
    have t: "transfer_tokens l a amt = (Ok (), ?l1)"
      using False by (simp add: transfer_tokens_def)
    have "\<not> sum_payouts ds \<le> vault_amount ?l1" using Cons.prems False by (simp add: d)
    from Cons.IH [OF this] show ?thesis using False by (simp add: d t fun_eq_iff)
  qed
qed

lemma transfer_all_rolled_back:
  "fst (transfer_all l ds []) \<noteq> Ok () \<Longrightarrow> snd (transfer_all l ds []) = l"
  by (cases "sum_payouts ds \<le> vault_amount l") (simp_all add: transfer_all_ok transfer_all_fail)

lemma distribute_winnings_all_or_nothing:
  "fst (distribute_winnings f g ctx) \<noteq> Ok () \<Longrightarrow> snd (distribute_winnings f g ctx) = ctx"
  using transfer_all_rolled_back [of "tokens ctx"]
  by (auto simp: distribute_winnings_def Let_def case_prod_unfold split: result.splits)

lemma distribute_winnings_insufficient:
  assumes "status (session ctx) = Completed" "f (session ctx) = Ok tot"
    "vault_amount (tokens ctx) < unat tot"
  shows "distribute_winnings f g ctx = (Err InsufficientVaultBalance, ctx)"
  using assms by (simp add: distribute_winnings_def)

lemma distribute_winnings_status:
  "(fst (distribute_winnings f g ctx) = Ok () \<longrightarrow>
      status (session ctx) = Completed \<and>
      session (snd (distribute_winnings f g ctx)) = (session ctx)\<lparr>status := Distributed\<rparr>) \<and>
   (fst (distribute_winnings f g ctx) \<noteq> Ok () \<longrightarrow>
      session (snd (distribute_winnings f g ctx)) = session ctx)"
  by (auto simp: distribute_winnings_def Let_def case_prod_unfold split: result.splits)


lemma distribute_winnings_ok:
  assumes "status (session ctx) = Completed" "f (session ctx) = Ok tot" "g (session ctx) = Ok ds"
    "unat tot = sum_payouts ds" "sum_payouts ds \<le> vault_amount (tokens ctx)"
  shows "distribute_winnings f g ctx =
     (Ok (), \<lparr>session = (session ctx)\<lparr>status := Distributed\<rparr>,
              tokens = \<lparr>vault_amount = vault_amount (tokens ctx) - sum_payouts ds,
                        token_amount = (\<lambda>p. token_amount (tokens ctx) p + paid_to ds p)\<rparr>\<rparr>)"
  using assms by (simp add: distribute_winnings_def transfer_all_ok)

lemma distribute_all_winnings_handler_session:
  "session (snd (distribute_all_winnings_handler ctx winning_team)) = session ctx"
  by (simp add: distribute_all_winnings_handler_def Let_def case_prod_unfold)

lemma count_list_distinct_filter:
  "distinct (filter P xs) \<Longrightarrow> P p \<Longrightarrow> p \<in> set xs \<Longrightarrow> count_list xs p = 1"
  by (induction xs) (auto split: if_splits)

lemma count_list_filter: "count_list (filter P xs) p = (if P p then count_list xs p else 0)"
  by (induction xs) auto

lemma distinct_filter_take2:
  assumes "distinct (filter P (A @ B))"
  shows "distinct (filter P (take n A @ take m B))"
proof -
  have "distinct (filter P ((take n A @ drop n A) @ (take m B @ drop m B)))"
    using assms by simp
  then show ?thesis
    unfolding filter_append distinct_append by auto
qed

lemma position_None_iff: "position xs p = None \<longleftrightarrow> p \<notin> set xs"
  by (induction xs) auto

lemma position_first:
  "distinct (filter P xs) \<Longrightarrow> i < length xs \<Longrightarrow> xs ! i = p \<Longrightarrow> P p \<Longrightarrow> position xs p = Some i"
proof (induction xs arbitrary: i)
  case Nil
  then show ?case by simp
next
  case (Cons x xs)
  show ?case
  proof (cases i)
    case 0
    with Cons.prems show ?thesis by simp
  next
    case (Suc j)
    with Cons.prems have j: "j < length xs" "xs ! j = p" by simp_all
    then have mem: "p \<in> set xs" by auto
    have "x \<noteq> p" using Cons.prems(1,4) mem by (auto split: if_splits)
    moreover have "distinct (filter P xs)" using Cons.prems(1) by (auto split: if_splits)
    ultimately show ?thesis using Cons.IH [OF _ j Cons.prems(4)] Suc by simp
  qed
qed

lemma unat_points: "unat (ucast (k :: u32) + ucast (sp :: u16) :: u64) = unat k + unat sp"
proof -
  have kb: "unat k < 2 ^ 32" using unsigned_less [of k] by simp
  have sb: "unat sp < 2 ^ 16" using unsigned_less [of sp] by simp
  have "unat k < 2 ^ 64" using kb by simp
  then have k: "unat (ucast k :: u64) = unat k"
    by (simp add: unsigned_ucast_eq take_bit_nat_eq_self)
  have "unat sp < 2 ^ 64" using sb by simp
  then have sp: "unat (ucast sp :: u64) = unat sp"
    by (simp add: unsigned_ucast_eq take_bit_nat_eq_self)
  have "unat (ucast k :: u64) + unat (ucast sp :: u64) < 2 ^ LENGTH(64)"
    using kb sb by (simp add: k sp)
  then show ?thesis by (simp add: unat_add_lem [THEN iffD1] k sp)
qed


lemma players_per_team_le: "players_per_team m \<le> MAX_PLAYERS_PER_TEAM"
  by (cases m) (simp_all add: MAX_PLAYERS_PER_TEAM_def)

lemma slot_facts:
  assumes wf: "wf_session s" and uq: "unique_players s" and t: "t = 0 \<or> t = 1"
    and i: "i < players_per_team (game_mode s)"
    and occ: "players (team_of s t) ! i \<noteq> default_pubkey"
  shows "count_list (winning_players s t) (players (team_of s t) ! i) = 1"
    and "count_list (get_all_players s) (players (team_of s t) ! i) = 1"
    and "get_kills_and_spawns s (players (team_of s t) ! i) =
           Ok (ucast (kills_of s t i) + ucast (spawns_of s t i))"
proof -
  let ?P = "\<lambda>p. p \<noteq> default_pubkey"
  let ?n = "players_per_team (game_mode s)"
  let ?A = "players (team_a s)" and ?B = "players (team_b s)"
  let ?p = "players (team_of s t) ! i"
  have len: "length ?A = MAX_PLAYERS_PER_TEAM" "length ?B = MAX_PLAYERS_PER_TEAM"
    "length (player_kills (team_of s t)) = MAX_PLAYERS_PER_TEAM"
    "length (player_spawns (team_of s t)) = MAX_PLAYERS_PER_TEAM"
    "length (players (team_of s t)) = MAX_PLAYERS_PER_TEAM"
    using wf by (auto simp: wf_session_def wf_team_def team_of_def)
  have i5: "i < MAX_PLAYERS_PER_TEAM" using i players_per_team_le [of "game_mode s"] by simp
  have d: "distinct (filter ?P (?A @ ?B))" using uq by (simp add: unique_players_def occupied_def)
  have dA: "distinct (filter ?P ?A)" and dB: "distinct (filter ?P ?B)" using d by simp_all
  have mem: "?p \<in> set (take ?n (players (team_of s t)))"
    using i i5 len(5) by (auto simp: in_set_conv_nth intro!: exI [of _ i])
  have d1: "distinct (filter ?P (take ?n (players (team_of s t))))"
    using distinct_filter_take2 [OF d, of ?n 0] distinct_filter_take2 [OF d, of 0 ?n]
    by (simp add: team_of_def)
  show "count_list (winning_players s t) ?p = 1"
    unfolding winning_players_def using d1 occ mem by (rule count_list_distinct_filter)
  have mem2: "?p \<in> set (take ?n ?A @ take ?n ?B)" using mem by (auto simp: team_of_def)
  have "count_list (take ?n ?A @ take ?n ?B) ?p = 1"
    using distinct_filter_take2 [OF d] occ mem2 by (rule count_list_distinct_filter)
  then show "count_list (get_all_players s) ?p = 1"
    using occ by (simp add: get_all_players_def count_list_filter)
  show "get_kills_and_spawns s ?p = Ok (ucast (kills_of s t i) + ucast (spawns_of s t i))"
  proof (cases "t = 0")
    case True
    then have "position ?A ?p = Some i"
      using position_first [OF dA, of i ?p] i5 len(1) occ by (simp add: team_of_def)
    then show ?thesis
      using True i5 len(3,4)
      by (simp add: get_kills_and_spawns_def kills_and_spawns_at_def kills_of_def spawns_of_def
          team_of_def)
  next
    case False
    then have tb: "team_of s t = team_b s" by (simp add: team_of_def)
    have inB: "?p \<in> set ?B" using i5 len(2) by (simp add: tb)
    have "?p \<notin> set ?A" using d occ inB by auto
    then have a: "position ?A ?p = None" by (simp add: position_None_iff)
    have b: "position ?B ?p = Some i"
      using position_first [OF dB, of i ?p] i5 len(2) occ by (simp add: tb)
    show ?thesis
      using a b i5 len(3,4)
      by (simp add: get_kills_and_spawns_def kills_and_spawns_at_def kills_of_def spawns_of_def tb)
  qed
qed

lemma calculate_earnings_cases:
  "(unat ks * unat bet < 2 ^ 64 \<longrightarrow>
      (\<exists>e. calculate_earnings ks bet = Ok e \<and> unat e = (unat ks * unat bet) div 10)) \<and>
   (\<not> unat ks * unat bet < 2 ^ 64 \<longrightarrow> calculate_earnings ks bet = Err ArithmeticError)"
proof (cases "unat ks * unat bet < 2 ^ 64")
  case True
  then have m: "unat (ks * bet) = unat ks * unat bet"
    by (simp add: unat_mult_lem [THEN iffD1])
  have "unat (ks * bet div 10) = unat (ks * bet) div unat (10 :: u64)" by (rule unat_div)
  then have "unat (ks * bet div 10) = (unat ks * unat bet) div 10" by (simp add: m)
  with True show ?thesis
    by (simp add: calculate_earnings_def checked_mul_def checked_div_def)
next
  case False
  then show ?thesis by (simp add: calculate_earnings_def checked_mul_def)
qed

lemma pay_players_Cons:
  "pay_players s l (p # rest) =
     (case get_kills_and_spawns s p of
        Err e \<Rightarrow> (Err e, l)
      | Panic \<Rightarrow> (Panic, l)
      | Ok ks \<Rightarrow>
          if \<not> unat ks * unat (session_bet s) < 2 ^ 64 then (Err ArithmeticError, l)
          else if earnings_of s p = 0 then pay_players s l rest
          else if vault_amount l < earnings_of s p then (Err InsufficientVaultBalance, l)
          else pay_players s
                 (l\<lparr>vault_amount := vault_amount l - earnings_of s p,
                    token_amount := (token_amount l)(p := token_amount l p + earnings_of s p)\<rparr>)
                 rest)"
proof (cases "get_kills_and_spawns s p")
  case (Ok ks)
  show ?thesis
  proof (cases "ks = 0")
    case True
    with Ok show ?thesis by (simp add: earnings_of_def)
  next
    case False
    show ?thesis
    proof (cases "unat ks * unat (session_bet s) < 2 ^ 64")
      case ovf: False
      then have "calculate_earnings ks (session_bet s) = Err ArithmeticError"
        using calculate_earnings_cases [of ks "session_bet s"] by blast
      with Ok False ovf show ?thesis by simp
    next
      case True
      then obtain e where e: "calculate_earnings ks (session_bet s) = Ok e"
        "unat e = (unat ks * unat (session_bet s)) div 10"
        using calculate_earnings_cases [of ks "session_bet s"] by blast
      have eo: "earnings_of s p = unat e" by (simp add: earnings_of_def Ok e(2))
      have pos: "(0 < e) = (unat e \<noteq> 0)" by (simp add: word_greater_zero_iff unat_eq_0)
      show ?thesis
        using Ok False True
        by (simp add: e(1) eo pos transfer_tokens_def Let_def unat_eq_0)
    qed
  qed
qed (simp_all)


lemma pay_players_ok:
  "pay_players s l ps = (Ok (), l') \<Longrightarrow>
     (\<forall>p\<in>set ps. \<exists>ks. get_kills_and_spawns s p = Ok ks \<and>
                          unat ks * unat (session_bet s) < 2 ^ 64) \<and>
     (\<forall>q. token_amount l' q = token_amount l q + count_list ps q * earnings_of s q) \<and>
     vault_amount l' + sum_list (map (earnings_of s) ps) = vault_amount l"
proof (induction ps arbitrary: l)
  case Nil
  then show ?case by simp
next
  case (Cons p rest)
  note step = Cons.prems [unfolded pay_players_Cons]
  obtain ks where ks: "get_kills_and_spawns s p = Ok ks"
    using step by (cases "get_kills_and_spawns s p") simp_all
  have fit: "unat ks * unat (session_bet s) < 2 ^ 64"
    using step ks by (simp split: if_splits)
  show ?case
  proof (cases "earnings_of s p = 0")
    case True
    then have "pay_players s l rest = (Ok (), l')" using step ks fit by simp
    from Cons.IH [OF this] show ?thesis using ks fit True by auto
  next
    case False
    let ?l1 = "l\<lparr>vault_amount := vault_amount l - earnings_of s p,
                 token_amount := (token_amount l)(p := token_amount l p + earnings_of s p)\<rparr>"
    have enough: "\<not> vault_amount l < earnings_of s p"
      using step ks fit False by (simp split: if_splits)
    then have "pay_players s ?l1 rest = (Ok (), l')" using step ks fit False by simp
    from Cons.IH [OF this] show ?thesis using ks fit enough by auto
  qed
qed

lemma pay_players_session:
  "session (snd (distribute_pay_spawn_earnings ctx)) = session ctx"
  by (simp add: distribute_pay_spawn_earnings_def Let_def case_prod_unfold)

lemma position_less: "position xs p = Some i \<Longrightarrow> i < length xs"
  by (induction xs arbitrary: i) (auto split: if_splits)

lemma get_kills_and_spawns_found:
  assumes wf: "wf_session s" and mem: "p \<in> set (players (team_a s)) \<or> p \<in> set (players (team_b s))"
  shows "\<exists>ks. get_kills_and_spawns s p = Ok ks"
proof -
  have len: "length (player_kills (team_a s)) = length (players (team_a s))"
    "length (player_spawns (team_a s)) = length (players (team_a s))"
    "length (player_kills (team_b s)) = length (players (team_b s))"
    "length (player_spawns (team_b s)) = length (players (team_b s))"
    using wf by (simp_all add: wf_session_def wf_team_def)
  show ?thesis
  proof (cases "position (players (team_a s)) p")
    case (Some i)
    then show ?thesis
      using position_less [OF Some] len(1,2)
      by (simp add: get_kills_and_spawns_def kills_and_spawns_at_def)
  next
    case None
    then have "p \<in> set (players (team_b s))" using mem by (simp add: position_None_iff)
    then obtain j where j: "position (players (team_b s)) p = Some j"
      using position_None_iff [of "players (team_b s)" p] by (cases "position (players (team_b s)) p") auto
    show ?thesis
      using None j position_less [OF j] len(3,4)
      by (simp add: get_kills_and_spawns_def kills_and_spawns_at_def)
  qed
qed

lemma pay_players_overflow:
  assumes "\<forall>p\<in>set ps. \<exists>ks. get_kills_and_spawns s p = Ok ks"
    and "\<exists>p\<in>set ps. \<exists>ks. get_kills_and_spawns s p = Ok ks \<and>
           \<not> unat ks * unat (session_bet s) < 2 ^ 64"
  shows "fst (pay_players s l ps) = Err ArithmeticError \<or>
         fst (pay_players s l ps) = Err InsufficientVaultBalance"
  using assms
proof (induction ps arbitrary: l)
  case Nil
  then show ?case by simp
next
  case (Cons p rest)
  obtain ks where ks: "get_kills_and_spawns s p = Ok ks" using Cons.prems(1) by auto
  show ?case
  proof (cases "unat ks * unat (session_bet s) < 2 ^ 64")
    case False
    then show ?thesis by (simp add: pay_players_Cons ks del: pay_players.simps)
  next
    case True
    then have later: "\<exists>p\<in>set rest. \<exists>ks. get_kills_and_spawns s p = Ok ks \<and>
           \<not> unat ks * unat (session_bet s) < 2 ^ 64"
      using Cons.prems(2) ks by auto
    have all: "\<forall>p\<in>set rest. \<exists>ks. get_kills_and_spawns s p = Ok ks" using Cons.prems(1) by simp
    show ?thesis
      using Cons.IH [OF all later] True by (simp add: pay_players_Cons ks del: pay_players.simps)
  qed
qed

lemma pay_players_succeeds:
  assumes "\<forall>p\<in>set ps. \<exists>ks. get_kills_and_spawns s p = Ok ks \<and>
             unat ks * unat (session_bet s) < 2 ^ 64"
    and "sum_list (map (earnings_of s) ps) \<le> vault_amount l"
  shows "fst (pay_players s l ps) = Ok ()"
  using assms
proof (induction ps arbitrary: l)
  case Nil
  then show ?case by simp
next
  case (Cons p rest)
  obtain ks where ks: "get_kills_and_spawns s p = Ok ks"
    "unat ks * unat (session_bet s) < 2 ^ 64"
    using Cons.prems(1) by auto
  have all: "\<forall>p\<in>set rest. \<exists>ks. get_kills_and_spawns s p = Ok ks \<and>
             unat ks * unat (session_bet s) < 2 ^ 64"
    using Cons.prems(1) by simp
  let ?l1 = "l\<lparr>vault_amount := vault_amount l - earnings_of s p,
               token_amount := (token_amount l)(p := token_amount l p + earnings_of s p)\<rparr>"
  have a: "sum_list (map (earnings_of s) rest) \<le> vault_amount l" using Cons.prems(2) by simp
  have b: "sum_list (map (earnings_of s) rest) \<le> vault_amount ?l1" using Cons.prems(2) by simp
  have c: "\<not> vault_amount l < earnings_of s p" using Cons.prems(2) by simp
  show ?case
    using Cons.IH [OF all a] Cons.IH [OF all b] c ks
    by (simp add: pay_players_Cons del: pay_players.simps)
qed

text \<open>
  Claim C8. In a well-formed session whose occupied slots hold pairwise distinct
  players: when \<open>distribute_pay_spawn_earnings\<close> succeeds, every occupied slot of either
  team has been credited exactly \<open>floor ((kills + spawns) * bet / 10)\<close>, a product that
  fits a \<open>u64\<close>, which is nothing for a slot with \<open>kills + spawns = 0\<close>, and no other
  account has changed; when the product of some occupied slot does not fit a \<open>u64\<close> the
  handler fails, with \<open>ArithmeticError\<close> unless the vault ran short at an earlier player;
  when every product fits and the vault covers the sum, the handler succeeds; and the
  checked computation returns \<open>ArithmeticError\<close> on every overflowing product.
\<close>

theorem pay_spawn_earnings_exact:
  assumes wf: "wf_session (session ctx)" and uq: "unique_players (session ctx)"
  shows "(fst (distribute_pay_spawn_earnings ctx) = Ok () \<longrightarrow>
           (\<forall>t i. (t = 0 \<or> t = 1) \<and> i < players_per_team (game_mode (session ctx)) \<and>
               players (team_of (session ctx) t) ! i \<noteq> default_pubkey \<longrightarrow>
             (unat (kills_of (session ctx) t i) + unat (spawns_of (session ctx) t i)) *
               unat (session_bet (session ctx)) < 2 ^ 64 \<and>
             token_amount (tokens (snd (distribute_pay_spawn_earnings ctx)))
                 (players (team_of (session ctx) t) ! i) =
               token_amount (tokens ctx) (players (team_of (session ctx) t) ! i) +
               ((unat (kills_of (session ctx) t i) + unat (spawns_of (session ctx) t i)) *
                  unat (session_bet (session ctx))) div 10) \<and>
           (\<forall>q. q \<notin> set (get_all_players (session ctx)) \<longrightarrow>
              token_amount (tokens (snd (distribute_pay_spawn_earnings ctx))) q =
                token_amount (tokens ctx) q)) \<and>
         ((\<exists>t i. (t = 0 \<or> t = 1) \<and> i < players_per_team (game_mode (session ctx)) \<and>
               players (team_of (session ctx) t) ! i \<noteq> default_pubkey \<and>
               \<not> (unat (kills_of (session ctx) t i) + unat (spawns_of (session ctx) t i)) *
                   unat (session_bet (session ctx)) < 2 ^ 64) \<longrightarrow>
            fst (distribute_pay_spawn_earnings ctx) = Err ArithmeticError \<or>
            fst (distribute_pay_spawn_earnings ctx) = Err InsufficientVaultBalance) \<and>
         ((\<forall>p\<in>set (get_all_players (session ctx)). \<exists>ks.
              get_kills_and_spawns (session ctx) p = Ok ks \<and>
              unat ks * unat (session_bet (session ctx)) < 2 ^ 64) \<and>
          sum_list (map (earnings_of (session ctx)) (get_all_players (session ctx)))
            \<le> vault_amount (tokens ctx) \<longrightarrow>
            fst (distribute_pay_spawn_earnings ctx) = Ok ()) \<and>
         (\<forall>ks bet. \<not> unat ks * unat bet < 2 ^ 64 \<longrightarrow>
            calculate_earnings ks bet = Err ArithmeticError)"
proof -
  let ?s = "session ctx"
  let ?r = "distribute_pay_spawn_earnings ctx"
  have fst_r: "fst ?r = fst (pay_players ?s (tokens ctx) (get_all_players ?s))"
    and tok_r: "tokens (snd ?r) = snd (pay_players ?s (tokens ctx) (get_all_players ?s))"
    by (simp_all add: distribute_pay_spawn_earnings_def Let_def case_prod_unfold)
  have paid: "(unat (kills_of ?s t i) + unat (spawns_of ?s t i)) * unat (session_bet ?s) < 2 ^ 64 \<and>
           token_amount (tokens (snd ?r)) (players (team_of ?s t) ! i) =
             token_amount (tokens ctx) (players (team_of ?s t) ! i) +
             ((unat (kills_of ?s t i) + unat (spawns_of ?s t i)) * unat (session_bet ?s)) div 10"
    if ok: "fst ?r = Ok ()" and t: "t = 0 \<or> t = 1" and i: "i < players_per_team (game_mode ?s)"
      and occ: "players (team_of ?s t) ! i \<noteq> default_pubkey" for t i
  proof -
    let ?p = "players (team_of ?s t) ! i"
    have run: "pay_players ?s (tokens ctx) (get_all_players ?s) = (Ok (), tokens (snd ?r))"
      using ok by (simp add: fst_r tok_r prod_eq_iff)
    note facts = pay_players_ok [OF run]
    note sf = slot_facts [OF wf uq t i occ]
    have mem: "?p \<in> set (get_all_players ?s)"
      using sf(2) count_list_0_iff [of "get_all_players ?s" ?p] by simp
    have e: "earnings_of ?s ?p =
        ((unat (kills_of ?s t i) + unat (spawns_of ?s t i)) * unat (session_bet ?s)) div 10"
      by (simp add: earnings_of_def sf(3) unat_points)
    have "unat (ucast (kills_of ?s t i) + ucast (spawns_of ?s t i) :: u64) * unat (session_bet ?s)
            < 2 ^ 64"
      using facts mem sf(3) by auto
    then show ?thesis using facts sf(2) e by (simp add: unat_points)
  qed
  have other: "token_amount (tokens (snd ?r)) q = token_amount (tokens ctx) q"
    if ok: "fst ?r = Ok ()" and q: "q \<notin> set (get_all_players ?s)" for q
  proof -
    have run: "pay_players ?s (tokens ctx) (get_all_players ?s) = (Ok (), tokens (snd ?r))"
      using ok by (simp add: fst_r tok_r prod_eq_iff)
    from pay_players_ok [OF run] q show ?thesis by simp
  qed
  have found: "\<forall>p\<in>set (get_all_players ?s). \<exists>ks. get_kills_and_spawns ?s p = Ok ks"
  proof
    fix p assume "p \<in> set (get_all_players ?s)"
    then have "p \<in> set (players (team_a ?s)) \<or> p \<in> set (players (team_b ?s))"
      by (auto simp: get_all_players_def dest: in_set_takeD)
    with wf show "\<exists>ks. get_kills_and_spawns ?s p = Ok ks" by (rule get_kills_and_spawns_found)
  qed
  have ovf: "fst ?r = Err ArithmeticError \<or> fst ?r = Err InsufficientVaultBalance"
    if t: "t = 0 \<or> t = 1" and i: "i < players_per_team (game_mode ?s)"
      and occ: "players (team_of ?s t) ! i \<noteq> default_pubkey"
      and big: "\<not> (unat (kills_of ?s t i) + unat (spawns_of ?s t i)) * unat (session_bet ?s) < 2 ^ 64"
    for t i
  proof -
    let ?p = "players (team_of ?s t) ! i"
    note sf = slot_facts [OF wf uq t i occ]
    have mem: "?p \<in> set (get_all_players ?s)"
      using sf(2) count_list_0_iff [of "get_all_players ?s" ?p] by simp
    have "\<exists>p\<in>set (get_all_players ?s). \<exists>ks. get_kills_and_spawns ?s p = Ok ks \<and>
           \<not> unat ks * unat (session_bet ?s) < 2 ^ 64"
      using mem sf(3) big by (auto simp: unat_points intro!: bexI [of _ ?p])
    from pay_players_overflow [OF found this] show ?thesis by (simp add: fst_r)
  qed
  have good: "fst ?r = Ok ()"
    if "\<forall>p\<in>set (get_all_players ?s). \<exists>ks. get_kills_and_spawns ?s p = Ok ks \<and>
              unat ks * unat (session_bet ?s) < 2 ^ 64"
      and "sum_list (map (earnings_of ?s) (get_all_players ?s)) \<le> vault_amount (tokens ctx)"
    using pay_players_succeeds [OF that] by (simp add: fst_r)
  show ?thesis using paid other ovf good calculate_earnings_cases by blast
qed


lemmas pay_eval = distribute_pay_spawn_earnings_def get_all_players_def duel_def slot_team_def
  purse_def default_pubkey_def get_kills_and_spawns_def kills_and_spawns_at_def
  calculate_earnings_def checked_mul_def checked_div_def transfer_tokens_def Let_def

lemmas winnings_eval = distribute_all_winnings_handler_def winning_amount_def winning_players_def
  team_of_def transfer_tokens_def duel_def slot_team_def purse_def Let_def

theorem pay_spawn_earnings_exact_witness:
  "fst (distribute_pay_spawn_earnings
     \<lparr>session = duel PayToSpawnOneVsOne 1000 Completed (slot_team 1 1 13) (slot_team 2 6 19),
      tokens = purse 3900 50 70\<rparr>) = Ok () \<and>
   token_amount (tokens (snd (distribute_pay_spawn_earnings
     \<lparr>session = duel PayToSpawnOneVsOne 1000 Completed (slot_team 1 1 13) (slot_team 2 6 19),
      tokens = purse 3900 50 70\<rparr>))) 1 = 50 + 1400 \<and>
   token_amount (tokens (snd (distribute_pay_spawn_earnings
     \<lparr>session = duel PayToSpawnOneVsOne 1000 Completed (slot_team 1 1 13) (slot_team 2 6 19),
      tokens = purse 3900 50 70\<rparr>))) 2 = 70 + 2500 \<and>
   fst (distribute_pay_spawn_earnings
     \<lparr>session = duel PayToSpawnOneVsOne 9223372036854775808 Completed
        (slot_team 1 0 10) (slot_team 2 0 10), tokens = purse 3900 50 70\<rparr>) = Err ArithmeticError"
proof -
  let ?ctx = "\<lparr>session = duel PayToSpawnOneVsOne 1000 Completed (slot_team 1 1 13) (slot_team 2 6 19),
      tokens = purse 3900 50 70\<rparr>"
  have wf: "wf_session (session ?ctx)" by (simp add: wf_duel)
  have uq: "unique_players (session ?ctx)"
    by (simp add: unique_players_def occupied_def duel_def slot_team_def default_pubkey_def)
  have ok: "fst (distribute_pay_spawn_earnings ?ctx) = Ok ()" by (simp add: pay_eval)
  have a: "((0::u8) = 0 \<or> (0::u8) = 1) \<and> 0 < players_per_team (game_mode (session ?ctx)) \<and>
           players (team_of (session ?ctx) 0) ! 0 \<noteq> default_pubkey"
    by (simp add: duel_def slot_team_def team_of_def default_pubkey_def)
  have b: "((1::u8) = 0 \<or> (1::u8) = 1) \<and> 0 < players_per_team (game_mode (session ?ctx)) \<and>
           players (team_of (session ?ctx) 1) ! 0 \<noteq> default_pubkey"
    by (simp add: duel_def slot_team_def team_of_def default_pubkey_def)
  note T = pay_spawn_earnings_exact [OF wf uq]
  have pa: "token_amount (tokens (snd (distribute_pay_spawn_earnings ?ctx)))
                 (players (team_of (session ?ctx) 0) ! 0) =
               token_amount (tokens ?ctx) (players (team_of (session ?ctx) 0) ! 0) +
               ((unat (kills_of (session ?ctx) 0 0) + unat (spawns_of (session ?ctx) 0 0)) *
                  unat (session_bet (session ?ctx))) div 10"
    using T ok a by blast
  have pb: "token_amount (tokens (snd (distribute_pay_spawn_earnings ?ctx)))
                 (players (team_of (session ?ctx) 1) ! 0) =
               token_amount (tokens ?ctx) (players (team_of (session ?ctx) 1) ! 0) +
               ((unat (kills_of (session ?ctx) 1 0) + unat (spawns_of (session ?ctx) 1 0)) *
                  unat (session_bet (session ?ctx))) div 10"
    using T ok b by blast
  have pa': "token_amount (tokens (snd (distribute_pay_spawn_earnings ?ctx))) 1 = 50 + 1400"
    using pa by (simp add: duel_def slot_team_def team_of_def kills_of_def spawns_of_def purse_def)
  have pb': "token_amount (tokens (snd (distribute_pay_spawn_earnings ?ctx))) 2 = 70 + 2500"
    using pb by (simp add: duel_def slot_team_def team_of_def kills_of_def spawns_of_def purse_def)
  have ovf: "fst (distribute_pay_spawn_earnings
     \<lparr>session = duel PayToSpawnOneVsOne 9223372036854775808 Completed
        (slot_team 1 0 10) (slot_team 2 0 10), tokens = purse 3900 50 70\<rparr>) = Err ArithmeticError"
    by (simp add: pay_eval)
  show ?thesis using ok pa' pb' ovf by blast
qed

text \<open>
  Claim C1, evaluated on \<open>distribute_pay_spawn_earnings\<close>: player 1 is owed 1000,
  player 2 is owed 2000, and the vault holds 1500. The guard in front of the first
  transfer compares 1000 with 1500 and lets it through; the guard in front of the second
  fails with \<open>InsufficientVaultBalance\<close>. The first player has been paid although the
  payouts total 3000. The settlement of Appendix A.2 refuses the same shortfall before
  any transfer (\<open>distribute_winnings_insufficient\<close>) and leaves nothing behind when it
  fails (\<open>distribute_winnings_all_or_nothing\<close>).
\<close>

theorem pay_spawn_partial_payout:
  "distribute_pay_spawn_earnings
     \<lparr>session = duel PayToSpawnOneVsOne 1000 Completed (slot_team 1 0 10) (slot_team 2 5 15),
      tokens = purse 1500 0 0\<rparr> =
    (Err InsufficientVaultBalance,
     \<lparr>session = duel PayToSpawnOneVsOne 1000 Completed (slot_team 1 0 10) (slot_team 2 5 15),
      tokens = purse 500 1000 0\<rparr>) \<and>
   earnings_of (duel PayToSpawnOneVsOne 1000 Completed (slot_team 1 0 10) (slot_team 2 5 15)) 1 = 1000 \<and>
   earnings_of (duel PayToSpawnOneVsOne 1000 Completed (slot_team 1 0 10) (slot_team 2 5 15)) 2 = 2000"
  by (simp add: pay_eval earnings_of_def fun_eq_iff)

text \<open>
  Claim C4, evaluated at Scenario A on \<open>distribute_all_winnings_handler\<close>: a completed
  one-versus-one session with a stake of 1000, both players joined, a vault of 2000, and
  team 0 the winner. The call succeeds, the winner is credited 2000 and the vault is left
  with 0, as the claim says; the status is still \<open>Completed\<close>, not \<open>Distributed\<close>. The
  handler returns after its loop and assigns no status: it never changes the session
  (\<open>distribute_all_winnings_handler_session\<close>).
\<close>

theorem winner_takes_all_keeps_completed:
  "distribute_all_winnings_handler
     \<lparr>session = duel WinnerTakesAllOneVsOne 1000 Completed (slot_team 1 1 1) (slot_team 2 0 0),
      tokens = purse 2000 9000 9000\<rparr> 0 =
    (Ok (),
     \<lparr>session = duel WinnerTakesAllOneVsOne 1000 Completed (slot_team 1 1 1) (slot_team 2 0 0),
      tokens = purse 0 11000 9000\<rparr>) \<and>
   status (session (snd (distribute_all_winnings_handler
     \<lparr>session = duel WinnerTakesAllOneVsOne 1000 Completed (slot_team 1 1 1) (slot_team 2 0 0),
      tokens = purse 2000 9000 9000\<rparr> 0))) \<noteq> Distributed"
  by (simp add: winnings_eval fun_eq_iff)

text \<open>
  Claim C7, evaluated on both printed handlers. A completed winner-takes-all session
  (stake 500, team 1 the winner, vault 1000) and a completed pay-to-spawn session
  (14 and 25 points at a stake of 1000, vault 3900) are settled in full and successfully,
  and the status of each is still \<open>Completed\<close>. Neither handler assigns a status, whatever
  the status it starts from: the same pay-to-spawn session in status \<open>InProgress\<close> is
  settled as well and stays \<open>InProgress\<close>. The settlement of Appendix A.2 sets
  \<open>Distributed\<close> on success and changes nothing otherwise (\<open>distribute_winnings_status\<close>).
\<close>

theorem settlement_status_never_written:
  "distribute_all_winnings_handler
     \<lparr>session = duel WinnerTakesAllOneVsOne 500 Completed (slot_team 1 0 0) (slot_team 2 1 1),
      tokens = purse 1000 0 0\<rparr> 1 =
    (Ok (),
     \<lparr>session = duel WinnerTakesAllOneVsOne 500 Completed (slot_team 1 0 0) (slot_team 2 1 1),
      tokens = purse 0 0 1000\<rparr>) \<and>
   distribute_pay_spawn_earnings
     \<lparr>session = duel PayToSpawnOneVsOne 1000 Completed (slot_team 1 1 13) (slot_team 2 6 19),
      tokens = purse 3900 0 0\<rparr> =
    (Ok (),
     \<lparr>session = duel PayToSpawnOneVsOne 1000 Completed (slot_team 1 1 13) (slot_team 2 6 19),
      tokens = purse 0 1400 2500\<rparr>) \<and>
   distribute_pay_spawn_earnings
     \<lparr>session = duel PayToSpawnOneVsOne 1000 InProgress (slot_team 1 1 13) (slot_team 2 6 19),
      tokens = purse 3900 0 0\<rparr> =
    (Ok (),
     \<lparr>session = duel PayToSpawnOneVsOne 1000 InProgress (slot_team 1 1 13) (slot_team 2 6 19),
      tokens = purse 0 1400 2500\<rparr>) \<and>
   status (session (snd (distribute_all_winnings_handler
     \<lparr>session = duel WinnerTakesAllOneVsOne 500 Completed (slot_team 1 0 0) (slot_team 2 1 1),
      tokens = purse 1000 0 0\<rparr> 1))) = Completed \<and>
   status (session (snd (distribute_pay_spawn_earnings
     \<lparr>session = duel PayToSpawnOneVsOne 1000 Completed (slot_team 1 1 13) (slot_team 2 6 19),
      tokens = purse 3900 0 0\<rparr>))) = Completed"
  by (simp add: winnings_eval pay_eval fun_eq_iff)

section \<open>Properties of the RecordKill operation\<close>




end
